theory Spec2Isabelle
  imports Main "HOL-Library.Word" "HOL-Library.Sublist"
begin

section \<open>The script session layer of server/script/node\<close>

text \<open>
  The Go file under verification defines the \<open>Script\<close> handle: its recovery loop
  \<open>Script.exchange\<close>, the public operations \<open>Describe\<close> and \<open>Execute\<close>, and the stack
  translator \<open>rewriteJavaScriptStack\<close>. Go's \<open>int\<close> is modelled at 64 bits
  (\<open>64 word\<close>, read with \<open>sint\<close>, compared with the signed orders); Go strings are
  byte sequences and so are HOL's.
\<close>

subsection \<open>Data\<close>

type_synonym go_int = "64 word"

definition maxScriptErrors :: go_int where
  "maxScriptErrors = 3"

record Session =
  Session :: string

record 'v Init = Session +
  Executable :: string
  Variables :: "string \<rightharpoonup> 'v"
  Includes :: "string list"

record 'v Execute = Session +
  Function :: string
  Args :: "'v list"

text \<open>
  \<open>Script\<close> embeds \<open>*Init\<close>, taken to be a non-nil pointer, so its fields are fields of
  the handle; the \<open>exchanger\<close> pointer is the external collaborator and is a parameter of
  every operation below.
\<close>

record 'v Script = "'v Init" +
  colOffset :: go_int
  rowOffset :: go_int
  errCount :: go_int

subsection \<open>Errors\<close>

text \<open>
  The code looks at an \<open>error\<close> only through \<open>errors.Is\<close> and \<open>errors.As\<close>, which walk
  the error's chain of causes. \<open>ErrOutOfMemory\<close> and \<open>errLoadRequired\<close> are the two
  sentinels, \<open>jsError\<close> is the structured script error, a value with the two fields the
  code reads, \<open>Opaque\<close> is any other error without a cause, and \<open>Wrap\<close> is an error
  with a message and one cause. The sentinels and the script error end a chain.
\<close>

record jsError =
  message :: string
  stack :: string

datatype error =
    ErrOutOfMemory
  | errLoadRequired
  | JsError jsError
  | Opaque string
  | Wrap string error

fun errors_Is :: "error \<Rightarrow> error \<Rightarrow> bool" where
  "errors_Is (Wrap m e) t = (Wrap m e = t \<or> errors_Is e t)"
| "errors_Is e t = (e = t)"

fun errors_As :: "error \<Rightarrow> jsError option" where
  "errors_As (JsError j) = Some j"
| "errors_As (Wrap m e) = errors_As e"
| "errors_As e = None"

subsection \<open>Strings: split, trim, decimal numbers\<close>

definition newline :: char where
  "newline = CHR 0x0A"

text \<open>\<open>strings.Split(s, "\n")\<close>: always at least one piece.\<close>

fun split_lines :: "string \<Rightarrow> string list" where
  "split_lines [] = [[]]"
| "split_lines (c # cs) =
     (if c = newline then [] # split_lines cs
      else (case split_lines cs of [] \<Rightarrow> [[c]] | l # ls \<Rightarrow> (c # l) # ls))"

text \<open>\<open>strings.Join(xs, "\n")\<close>.\<close>

fun join_lines :: "string list \<Rightarrow> string" where
  "join_lines [] = []"
| "join_lines [x] = x"
| "join_lines (x # y # ys) = x @ [newline] @ join_lines (y # ys)"

text \<open>\<open>strings.Trim(s, "\n")\<close>: all leading and trailing newlines are cut.\<close>

definition trim_newlines :: "string \<Rightarrow> string" where
  "trim_newlines s =
     rev (dropWhile (\<lambda>c. c = newline) (rev (dropWhile (\<lambda>c. c = newline) s)))"

definition is_digit :: "char \<Rightarrow> bool" where
  "is_digit c = (c \<in> set ''0123456789'')"

text \<open>The class \<open>\s\<close> of Go's regexp: tab, newline, form feed, carriage return, space.\<close>

definition is_space :: "char \<Rightarrow> bool" where
  "is_space c = (c = CHR 0x09 \<or> c = CHR 0x0A \<or> c = CHR 0x0C \<or> c = CHR 0x0D \<or> c = CHR 0x20)"

definition digit_value :: "char \<Rightarrow> int" where
  "digit_value c = of_char c - 48"

definition decimal_value :: "string \<Rightarrow> int" where
  "decimal_value ds = foldl (\<lambda>n c. 10 * n + digit_value c) 0 ds"

text \<open>
  \<open>strconv.Atoi\<close> with its error dropped, as the code drops it (\<open>row, _ := ...\<close>): an
  optional sign, then decimal digits; 0 on a syntax error; the nearest bound of the 64-bit
  range on a range error.
\<close>

definition Atoi :: "string \<Rightarrow> go_int" where
  "Atoi s =
     (let neg = (s \<noteq> [] \<and> hd s = CHR ''-'');
          ds = (if s \<noteq> [] \<and> (hd s = CHR ''+'' \<or> hd s = CHR ''-'') then tl s else s)
      in if ds = [] \<or> \<not> list_all is_digit ds then 0
         else if neg then (if 2 ^ 63 < decimal_value ds then word_of_int (- (2 ^ 63))
                           else word_of_int (- decimal_value ds))
         else (if 2 ^ 63 \<le> decimal_value ds then word_of_int (2 ^ 63 - 1)
               else word_of_int (decimal_value ds)))"

text \<open>The verb \<open>%d\<close> of \<open>fmt.Sprintf\<close> on an \<open>int\<close>.\<close>

function show_digits :: "int \<Rightarrow> string" where
  "show_digits n =
     (if n < 10 then [''0123456789'' ! nat n]
      else show_digits (n div 10) @ [''0123456789'' ! nat (n mod 10)])"
  by pat_completeness auto
termination
  by (relation "measure nat") auto

declare show_digits.simps [simp del]

definition show_int :: "int \<Rightarrow> string" where
  "show_int i = (if i < 0 then CHR ''-'' # show_digits (- i) else show_digits i)"

definition show_go_int :: "go_int \<Rightarrow> string" where
  "show_go_int w = show_int (sint w)"

subsection \<open>The frame pattern\<close>

text \<open>
  \<^verbatim>\<open>^\s*at\s(.*?)\s\(vm\.js:(\d+):(\d+)\)$\<close>, matched against one line by
  \<open>FindStringSubmatch\<close>. The pattern is anchored at both ends, so the match is the whole
  line or nothing. \<open>frame_tail\<close> is the part after the first group: one space character,
  \<open>(vm.js:\<close>, digits, a colon, digits, \<open>)\<close> and the end of the line; it returns the two
  digit groups.
\<close>

definition frame_tail :: "string \<Rightarrow> (string \<times> string) option" where
  "frame_tail s =
     (case s of
        [] \<Rightarrow> None
      | c # t \<Rightarrow>
          if is_space c \<and> prefix ''(vm.js:'' t then
            (let u = drop 7 t;
                 row = takeWhile is_digit u;
                 v = dropWhile is_digit u
             in if row \<noteq> [] \<and> v \<noteq> [] \<and> hd v = CHR '':'' then
                  (let w = tl v;
                       col = takeWhile is_digit w;
                       x = dropWhile is_digit w
                   in if col \<noteq> [] \<and> x = '')'' then Some (row, col) else None)
                else None)
          else None)"

text \<open>
  The lazy group \<open>(.*?)\<close>: the shortest run of characters other than a newline after
  which the rest of the pattern matches; \<open>acc\<close> holds the run so far, reversed.
\<close>

fun lazy_group :: "string \<Rightarrow> string \<Rightarrow> (string \<times> string \<times> string) option" where
  "lazy_group acc [] =
     (case frame_tail [] of Some (r, c) \<Rightarrow> Some (rev acc, r, c) | None \<Rightarrow> None)"
| "lazy_group acc (x # xs) =
     (case frame_tail (x # xs) of
        Some (r, c) \<Rightarrow> Some (rev acc, r, c)
      | None \<Rightarrow> if x = newline then None else lazy_group (x # acc) xs)"

text \<open>
  The whole pattern: the leading \<open>\s*\<close> takes every leading space character (the next
  character has to be the \<open>a\<close> of \<open>at\<close>), then \<open>at\<close>, one space character, and the lazy
  group. The result is the three submatches, \<open>match[1]\<close>, \<open>match[2]\<close>, \<open>match[3]\<close>;
  \<open>None\<close> is the empty slice.
\<close>

definition vmStackTraceLine :: "string \<Rightarrow> (string \<times> string \<times> string) option" where
  "vmStackTraceLine line =
     (let s = dropWhile is_space line
      in if prefix ''at'' s \<and> drop 2 s \<noteq> [] \<and> is_space (hd (drop 2 s))
         then lazy_group [] (drop 3 s)
         else None)"

subsection \<open>The stack translator\<close>

text \<open>
  The loop of \<open>rewriteJavaScriptStack\<close> over the lines after the first, with the slice
  \<open>stack\<close> built so far. \<open>None\<close> is the early \<open>return err\<close> on a negative row.
\<close>

fun rewrite_lines :: "('v, 'z) Script_scheme \<Rightarrow> string list \<Rightarrow> string list \<Rightarrow> string list option" where
  "rewrite_lines s stk [] = Some stk"
| "rewrite_lines s stk (line # lines) =
     (case vmStackTraceLine line of
        None \<Rightarrow> rewrite_lines s stk lines
      | Some (f, r, c) \<Rightarrow>
          (let function = (if f = ''module.exports'' then ''main'' else f);
               row = Atoi r - (rowOffset s + 1 + of_nat (length (Includes s)))
           in if row <s 0 then None
              else
                (let column = (if row = 1 then Atoi c - colOffset s else Atoi c)
                 in rewrite_lines s
                      (stk @ [''  at '' @ function @ '' ('' @ show_go_int row @ '':''
                                @ show_go_int column @ '')''])
                      lines)))"

definition rewriteJavaScriptStack :: "('v, 'z) Script_scheme \<Rightarrow> error \<Rightarrow> error" where
  "rewriteJavaScriptStack s err =
     (case errors_As err of
        None \<Rightarrow> err
      | Some jsErr \<Rightarrow>
          if stack jsErr = [] then err
          else
            (case rewrite_lines s [] (tl (split_lines (stack jsErr))) of
               None \<Rightarrow> err
             | Some stk \<Rightarrow>
                 JsError (jsErr\<lparr>stack :=
                   trim_newlines (message jsErr @ [newline] @ join_lines stk)\<rparr>)))"

subsection \<open>The exchanger\<close>

text \<open>
  The command names are constants of the package; the payload of an exchange is a
  \<open>Session\<close>, an \<open>Execute\<close> or an \<open>Init\<close>. One call of \<open>exchanger.exchange\<close> is its
  command, its payload, and whether a result sink was passed (\<open>False\<close> is \<open>nil\<close>).
\<close>

datatype command = describe | execute | load | unload

datatype 'v payload =
    SessionPayload Session
  | ExecutePayload "'v Execute"
  | InitPayload "'v Init"

record 'v call =
  command :: command
  payload :: "'v payload"
  sink :: bool

text \<open>
  The exchanger talks to an external runtime. Its answer to a call may depend on every
  call it has received before, so it is a function of the calls made so far and of the
  present call; the answer is the error (\<open>Inl\<close>) or \<open>nil\<close> with the decoded result
  (\<open>Inr\<close>). The list of calls made so far is threaded through the operations with the
  handle.
\<close>

type_synonym 'v exchanger = "'v call list \<Rightarrow> 'v call \<Rightarrow> error + 'v"

subsection \<open>The recovery loop\<close>

text \<open>
  \<open>Script.exchange\<close>. The Go function calls itself on an out-of-memory answer below the
  ceiling and after a successful load, and nothing bounds the number of loads, so the
  model is a partial function: \<open>None\<close> is a call that never returns. The result is the
  returned error or the decoded value, the handle after the call, and the calls made.
  The tests come in the order of the code: out of memory first (the counter is raised,
  then compared with the maximum), then \<open>nil\<close>, then load-required, then any other error.
\<close>

partial_function (option) Script_exchange ::
  "'v exchanger \<Rightarrow> 'v call \<Rightarrow> 'v Script \<Rightarrow> 'v call list
     \<Rightarrow> ((error + 'v) \<times> 'v Script \<times> 'v call list) option"
where
  "Script_exchange X c s log =
     (case X log c of
        Inl err \<Rightarrow>
          if errors_Is err ErrOutOfMemory then
            (if maxScriptErrors \<le>s errCount s + 1
             then Some (Inl err, s\<lparr>errCount := errCount s + 1\<rparr>, log @ [c])
             else Script_exchange X c (s\<lparr>errCount := errCount s + 1\<rparr>) (log @ [c]))
          else if errors_Is err errLoadRequired then
            (case X (log @ [c])
                    \<lparr>command = load, payload = InitPayload (Init.truncate s), sink = False\<rparr> of
               Inl lerr \<Rightarrow>
                 Some (Inl (rewriteJavaScriptStack s lerr), s,
                       log @ [c, \<lparr>command = load, payload = InitPayload (Init.truncate s),
                                   sink = False\<rparr>])
             | Inr v \<Rightarrow>
                 Script_exchange X c s
                   (log @ [c, \<lparr>command = load, payload = InitPayload (Init.truncate s),
                               sink = False\<rparr>]))
          else Some (Inl (rewriteJavaScriptStack s err), s\<lparr>errCount := 0\<rparr>, log @ [c])
      | Inr v \<Rightarrow> Some (Inr v, s\<lparr>errCount := 0\<rparr>, log @ [c]))"

text \<open>\<open>Describe\<close>: the \<open>describe\<close> command with the session and a sink for the symbols.\<close>

definition Script_Describe ::
  "'v exchanger \<Rightarrow> 'v Script \<Rightarrow> 'v call list
     \<Rightarrow> ((error + 'v) \<times> 'v Script \<times> 'v call list) option" where
  "Script_Describe X s log =
     Script_exchange X
       \<lparr>command = describe, payload = SessionPayload (Session.truncate s), sink = True\<rparr> s log"

text \<open>
  \<open>Execute\<close>: a \<open>nil\<close> argument slice (\<open>None\<close>) is replaced by an empty one; \<open>result\<close> says
  whether the caller passed a sink.
\<close>

definition execute_call :: "'v Script \<Rightarrow> string \<Rightarrow> 'v list option \<Rightarrow> bool \<Rightarrow> 'v call" where
  "execute_call s name args result =
     \<lparr>command = execute,
      payload = ExecutePayload
        \<lparr>Session = Session s, Function = name,
           Args = (case args of None \<Rightarrow> [] | Some xs \<Rightarrow> xs)\<rparr>,
      sink = result\<rparr>"

definition Script_Execute ::
  "'v exchanger \<Rightarrow> string \<Rightarrow> 'v list option \<Rightarrow> bool \<Rightarrow> 'v Script \<Rightarrow> 'v call list
     \<Rightarrow> ((error + 'v) \<times> 'v Script \<times> 'v call list) option" where
  "Script_Execute X name args result s log =
     Script_exchange X (execute_call s name args result) s log"

subsection \<open>Concrete handles, stacks and exchangers\<close>

text \<open>
  A fresh handle with the offsets of the specification's scenario: \<open>rowOffset = 2\<close>,
  \<open>colOffset = 10\<close>, no includes, failure counter zero.
\<close>

definition fresh_script :: "string Script" where
  "fresh_script =
     \<lparr>Session = ''s1'', Executable = ''return 1'', Variables = Map.empty, Includes = [],
      colOffset = 10, rowOffset = 2, errCount = 0\<rparr>"

text \<open>The raw stack of the scenario: a header line and one frame of the wrapper.\<close>

definition spec_stack :: string where
  "spec_stack =
     ''at Object.<anonymous> (vm.js:1:1)'' @ [newline] @ ''at module.exports (vm.js:5:15)''"

text \<open>A stack whose second frame lies in the injected lines above the user's code.\<close>

definition boilerplate_stack :: string where
  "boilerplate_stack =
     ''Error: boom'' @ [newline] @ ''    at helper (vm.js:7:3)'' @ [newline]
       @ ''    at module.exports (vm.js:2:5)''"

text \<open>A stack whose only frame is on the last injected line.\<close>

definition row_zero_stack :: string where
  "row_zero_stack = ''Error: boom'' @ [newline] @ ''    at helper (vm.js:3:7)''"

definition always_oom :: "string exchanger" where
  "always_oom log c = Inl ErrOutOfMemory"


definition evicted_once :: "string exchanger" where
  "evicted_once log c = (if log = [] then Inl errLoadRequired else Inr ''ok'')"

definition load_fails :: "string exchanger" where
  "load_fails log c =
     (if command c = load then Inl (Opaque ''no runtime'') else Inl errLoadRequired)"

definition oom_then_load_fails :: "string exchanger" where
  "oom_then_load_fails log c =
     (if log = [] then Inl ErrOutOfMemory
      else if command c = load then Inl (Opaque ''no runtime'')
      else Inl errLoadRequired)"

text \<open>Out of memory on every exchange but the one after \<open>n\<close> earlier exchanges.\<close>

definition flaky :: "nat \<Rightarrow> string exchanger" where
  "flaky n log c = (if length log = n then Inr ''ok'' else Inl ErrOutOfMemory)"

subsection \<open>The counter after a call\<close>

text \<open>
  What a returned call of the recovery loop leaves in the failure counter, as a predicate
  on the handle before the call and on what the call returned: zero after a success and
  after an error of the requested command that is not out of memory; at the ceiling or
  above after an out-of-memory error of the requested command; and within 0..3 when the
  call started within 0..2. The last call made says whose error was returned.
\<close>

definition counter_contract ::
  "'v Script \<Rightarrow> (error + 'v) \<times> 'v Script \<times> 'v call list \<Rightarrow> bool" where
  "counter_contract s out =
     (case out of (r, s', log') \<Rightarrow>
        (case r of
           Inr v \<Rightarrow> errCount s' = 0
         | Inl e \<Rightarrow>
             (command (last log') \<noteq> load \<and> \<not> errors_Is e ErrOutOfMemory
                \<longrightarrow> errCount s' = 0) \<and>
             (command (last log') \<noteq> load \<and> errors_Is e ErrOutOfMemory
                \<longrightarrow> maxScriptErrors \<le>s errCount s')) \<and>
        (0 \<le>s errCount s \<and> errCount s <s maxScriptErrors
           \<longrightarrow> 0 \<le>s errCount s' \<and> errCount s' \<le>s maxScriptErrors))"

section \<open>Properties\<close>

subsection \<open>Evaluating the string functions\<close>

lemma Atoi_examples:
  "Atoi ''2'' = 2" "Atoi ''3'' = 3" "Atoi ''5'' = 5" "Atoi ''7'' = 7" "Atoi ''15'' = 15"
  by code_simp+

lemma Atoi_saturates: "Atoi ''99999999999999999999'' = 9223372036854775807"
  by code_simp

lemma show_go_int_examples:
  "show_go_int 0 = ''0''" "show_go_int 2 = ''2''" "show_go_int 7 = ''7''"
  "show_go_int 15 = ''15''" "show_go_int (- 1) = ''-1''"
  by code_simp+

lemma split_spec_stack:
  "split_lines spec_stack =
     [''at Object.<anonymous> (vm.js:1:1)'', ''at module.exports (vm.js:5:15)'']"
  by code_simp

lemma split_boilerplate_stack:
  "split_lines boilerplate_stack =
     [''Error: boom'', ''    at helper (vm.js:7:3)'', ''    at module.exports (vm.js:2:5)'']"
  by code_simp

lemma split_row_zero_stack:
  "split_lines row_zero_stack = [''Error: boom'', ''    at helper (vm.js:3:7)'']"
  by code_simp

lemma match_examples:
  "vmStackTraceLine ''at module.exports (vm.js:5:15)'' = Some (''module.exports'', ''5'', ''15'')"
  "vmStackTraceLine ''    at module.exports (vm.js:2:5)'' = Some (''module.exports'', ''2'', ''5'')"
  "vmStackTraceLine ''    at helper (vm.js:7:3)'' = Some (''helper'', ''7'', ''3'')"
  "vmStackTraceLine ''    at helper (vm.js:3:7)'' = Some (''helper'', ''3'', ''7'')"
  "vmStackTraceLine ''at helper (node:internal:3:7)'' = None"
  by code_simp+

subsection \<open>The matcher and the expression\<close>

text \<open>
  The function \<open>vmStackTraceLine\<close> matches a line exactly when the line is made of space
  characters, \<open>at\<close>, one space character, a group without a newline, one space
  character, \<open>(vm.js:\<close>, digits, a colon, digits and \<open>)\<close>; the submatches are the group
  and the two runs of digits. Such a line has one reading only, so the lazy group and a
  greedy one would capture the same.
\<close>

lemma frame_tail_sound:
  assumes "frame_tail s = Some (r, c)"
  shows "\<exists>sp. is_space sp \<and> s = sp # ''(vm.js:'' @ r @ '':'' @ c @ '')''
           \<and> r \<noteq> [] \<and> list_all is_digit r \<and> c \<noteq> [] \<and> list_all is_digit c"
proof (cases s)
  case Nil
  with assms show ?thesis by (simp add: frame_tail_def)
next
  case (Cons sp t)
  let ?u = "drop 7 t"
  let ?v = "dropWhile is_digit ?u"
  let ?w = "tl ?v"
  from assms Cons have sp: "is_space sp" and pre: "prefix ''(vm.js:'' t"
    by (auto simp: frame_tail_def split: if_splits)
  from assms Cons sp pre have r: "r = takeWhile is_digit ?u" "r \<noteq> []"
    and v: "?v \<noteq> []" "hd ?v = CHR '':''"
    and c: "c = takeWhile is_digit ?w" "c \<noteq> []"
    and x: "dropWhile is_digit ?w = '')''"
    by (auto simp: frame_tail_def Let_def split: if_splits)
  have t: "t = ''(vm.js:'' @ ?u"
    using pre by (auto simp: prefix_def)
  have u: "?u = r @ ?v"
    using r by simp
  have v': "?v = CHR '':'' # ?w"
    using v by (cases ?v) auto
  have w: "?w = c @ '')''"
    using c x by (metis takeWhile_dropWhile_id)
  have "s = sp # ''(vm.js:'' @ r @ '':'' @ c @ '')''"
    using Cons t u v' w by (metis append_Cons append_Nil)
  moreover have "list_all is_digit r" "list_all is_digit c"
    using r c by (auto simp: list_all_iff dest: set_takeWhileD)
  ultimately show ?thesis
    using sp r(2) c(2) by blast
qed

lemma frame_tail_complete:
  assumes "is_space sp" "r \<noteq> []" "list_all is_digit r" "c \<noteq> []" "list_all is_digit c"
  shows "frame_tail (sp # ''(vm.js:'' @ r @ '':'' @ c @ '')'') = Some (r, c)"
proof -
  have nd: "\<not> is_digit CHR '':''" "\<not> is_digit CHR '')''"
    by (simp_all add: is_digit_def)
  have r1: "takeWhile is_digit (r @ '':'' @ c @ '')'') = r"
    using assms(3) nd by (simp add: takeWhile_append2 list_all_iff)
  have r2: "dropWhile is_digit (r @ '':'' @ c @ '')'') = '':'' @ c @ '')''"
    using assms(3) nd by (simp add: dropWhile_append2 list_all_iff)
  have c1: "takeWhile is_digit (c @ '')'') = c"
    using assms(5) nd by (simp add: takeWhile_append2 list_all_iff)
  have c2: "dropWhile is_digit (c @ '')'') = '')''"
    using assms(5) nd by (simp add: dropWhile_append2 list_all_iff)
  show ?thesis
    using assms(1,2,4) nd r1 r2 c1 c2
    by (simp add: frame_tail_def)
qed

lemma lazy_group_sound:
  "lazy_group acc s = Some (f, r, c) \<Longrightarrow>
   \<exists>g. f = rev acc @ g \<and> newline \<notin> set g \<and> frame_tail (drop (length g) s) = Some (r, c)
       \<and> s = g @ drop (length g) s
       \<and> (\<forall>n < length g. frame_tail (drop n s) = None)"
proof (induction s arbitrary: acc)
  case Nil
  then show ?case by (simp add: frame_tail_def)
next
  case (Cons x xs)
  show ?case
  proof (cases "frame_tail (x # xs)")
    case (Some rc)
    with Cons.prems have "f = rev acc" "rc = (r, c)"
      by (auto split: prod.splits)
    with Some show ?thesis
      by (intro exI [of _ "[]"]) simp
  next
    case None
    with Cons.prems have nl: "x \<noteq> newline" and rec: "lazy_group (x # acc) xs = Some (f, r, c)"
      by (auto split: if_splits)
    from Cons.IH [OF rec] obtain g where g: "f = rev (x # acc) @ g" "newline \<notin> set g"
      "frame_tail (drop (length g) xs) = Some (r, c)" "xs = g @ drop (length g) xs"
      "\<forall>n < length g. frame_tail (drop n xs) = None"
      by blast
    have "\<forall>n < length (x # g). frame_tail (drop n (x # xs)) = None"
    proof (intro allI impI)
      fix n assume "n < length (x # g)"
      then show "frame_tail (drop n (x # xs)) = None"
        using None g(5) by (cases n) auto
    qed
    then show ?thesis
      using g nl by (intro exI [of _ "x # g"]) auto
  qed
qed

lemma vmStackTraceLine_sound:
  assumes "vmStackTraceLine line = Some (f, r, c)"
  shows "\<exists>ws sp1 sp2. line = ws @ ''at'' @ [sp1] @ f @ [sp2] @ ''(vm.js:'' @ r @ '':'' @ c @ '')''
           \<and> list_all is_space ws \<and> is_space sp1 \<and> is_space sp2 \<and> newline \<notin> set f
           \<and> r \<noteq> [] \<and> list_all is_digit r \<and> c \<noteq> [] \<and> list_all is_digit c"
proof -
  let ?ws = "takeWhile is_space line"
  let ?s = "dropWhile is_space line"
  from assms have pre: "prefix ''at'' ?s" and ne: "drop 2 ?s \<noteq> []"
    and sp1: "is_space (hd (drop 2 ?s))" and lg: "lazy_group [] (drop 3 ?s) = Some (f, r, c)"
    by (auto simp: vmStackTraceLine_def Let_def split: if_splits)
  from lazy_group_sound [OF lg] have nl: "newline \<notin> set f"
    and ft: "frame_tail (drop (length f) (drop 3 ?s)) = Some (r, c)"
    and rest: "drop 3 ?s = f @ drop (length f) (drop 3 ?s)"
    by auto
  from frame_tail_sound [OF ft] obtain sp2 where sp2: "is_space sp2"
    and tail: "drop (length f) (drop 3 ?s) = sp2 # ''(vm.js:'' @ r @ '':'' @ c @ '')''"
    and digits: "r \<noteq> []" "list_all is_digit r" "c \<noteq> []" "list_all is_digit c"
    by blast
  have s2: "?s = ''at'' @ drop 2 ?s"
    using pre by (auto simp: prefix_def)
  have d2: "drop 2 ?s = hd (drop 2 ?s) # drop 3 ?s"
    using ne by (cases "drop 2 ?s") (auto simp: drop_Suc numeral_3_eq_3 numeral_2_eq_2 tl_drop)
  have "line = ?ws @ ?s" by simp
  also have "?s = ''at'' @ [hd (drop 2 ?s)] @ f @ [sp2] @ ''(vm.js:'' @ r @ '':'' @ c @ '')''"
    using s2 d2 rest tail by (metis append_Cons append_Nil)
  finally have "line = ?ws @ ''at'' @ [hd (drop 2 ?s)] @ f @ [sp2] @ ''(vm.js:'' @ r @ '':'' @ c @ '')''" .
  moreover have "list_all is_space ?ws"
    by (auto simp: list_all_iff dest: set_takeWhileD)
  ultimately show ?thesis
    using sp1 sp2 nl digits by blast
qed


lemma digit_not_space: "is_digit x \<Longrightarrow> \<not> is_space x"
  by (auto simp: is_digit_def is_space_def)

lemma frame_tail_no_space:
  assumes "frame_tail s = Some (r, c)"
  shows "\<forall>x \<in> set (tl s). \<not> is_space x"
proof -
  from frame_tail_sound [OF assms] obtain sp where
    s: "s = sp # ''(vm.js:'' @ r @ '':'' @ c @ '')''" and d: "list_all is_digit r" "list_all is_digit c"
    by blast
  have "\<forall>x \<in> set (''(vm.js:'' @ '':'' @ '')''). \<not> is_space x"
    by (simp add: is_space_def)
  moreover have "\<forall>x \<in> set r \<union> set c. \<not> is_space x"
    using d digit_not_space by (auto simp: list_all_iff)
  ultimately show ?thesis
    unfolding s by auto
qed

lemma lazy_group_complete:
  "newline \<notin> set g \<Longrightarrow> frame_tail t = Some (r, c) \<Longrightarrow>
   (\<forall>n < length g. frame_tail (drop n (g @ t)) = None) \<Longrightarrow>
   lazy_group acc (g @ t) = Some (rev acc @ g, r, c)"
proof (induction g arbitrary: acc)
  case Nil
  then show ?case by (cases t) (auto simp: frame_tail_def)
next
  case (Cons x g)
  have none: "frame_tail (x # g @ t) = None"
    using Cons.prems(3) by (auto dest: spec [of _ 0])
  have rest: "\<forall>n < length g. frame_tail (drop n (g @ t)) = None"
    using Cons.prems(3) by (auto dest: spec [of _ "Suc _"])
  have "lazy_group (x # acc) (g @ t) = Some (rev (x # acc) @ g, r, c)"
    using Cons.prems(1,2) rest by (intro Cons.IH) auto
  then show ?case
    using none Cons.prems(1) by auto
qed

lemma vmStackTraceLine_complete:
  assumes ws: "list_all is_space ws" and sp: "is_space sp1" "is_space sp2"
    and f: "newline \<notin> set f"
    and digits: "r \<noteq> []" "list_all is_digit r" "c \<noteq> []" "list_all is_digit c"
  shows "vmStackTraceLine (ws @ ''at'' @ [sp1] @ f @ [sp2] @ ''(vm.js:'' @ r @ '':'' @ c @ '')'')
           = Some (f, r, c)"
proof -
  let ?t = "sp2 # ''(vm.js:'' @ r @ '':'' @ c @ '')''"
  have tail: "frame_tail ?t = Some (r, c)"
    using sp(2) digits by (rule frame_tail_complete)
  have shortest: "\<forall>n < length f. frame_tail (drop n (f @ ?t)) = None"
  proof (intro allI impI)
    fix n assume n: "n < length f"
    show "frame_tail (drop n (f @ ?t)) = None"
    proof (rule ccontr)
      assume "frame_tail (drop n (f @ ?t)) \<noteq> None"
      then obtain r' c' where "frame_tail (drop n (f @ ?t)) = Some (r', c')"
        by auto
      then have "\<forall>x \<in> set (tl (drop n (f @ ?t))). \<not> is_space x"
        by (rule frame_tail_no_space)
      moreover have "drop n (f @ ?t) = drop n f @ ?t" "drop n f \<noteq> []"
        using n by simp_all
      then have "sp2 \<in> set (tl (drop n (f @ ?t)))"
        by (cases "drop n f") auto
      ultimately show False
        using sp(2) by blast
    qed
  qed
  have group: "lazy_group [] (f @ ?t) = Some (f, r, c)"
    using lazy_group_complete [OF f tail shortest, of "[]"] by simp
  have "\<not> is_space CHR ''a''"
    by (simp add: is_space_def)
  then have "dropWhile is_space (ws @ ''at'' @ [sp1] @ f @ ?t) = ''at'' @ [sp1] @ f @ ?t"
    using ws by (simp add: dropWhile_append list_all_iff)
  then show ?thesis
    using sp(1) group by (simp add: vmStackTraceLine_def)
qed

subsection \<open>One round of the recovery loop\<close>

lemma ceiling_iff: "maxScriptErrors \<le>s w \<longleftrightarrow> 3 \<le> sint w"
  by (simp add: maxScriptErrors_def word_sle_eq)

lemma exchange_success:
  "X log c = Inr v \<Longrightarrow>
   Script_exchange X c s log = Some (Inr v, s\<lparr>errCount := 0\<rparr>, log @ [c])"
  by (subst Script_exchange.simps) simp

lemma exchange_oom_retry:
  "X log c = Inl e \<Longrightarrow> errors_Is e ErrOutOfMemory \<Longrightarrow>
   \<not> maxScriptErrors \<le>s errCount s + 1 \<Longrightarrow>
   Script_exchange X c s log =
     Script_exchange X c (s\<lparr>errCount := errCount s + 1\<rparr>) (log @ [c])"
  by (subst Script_exchange.simps) simp

lemma exchange_oom_ceiling:
  "X log c = Inl e \<Longrightarrow> errors_Is e ErrOutOfMemory \<Longrightarrow>
   maxScriptErrors \<le>s errCount s + 1 \<Longrightarrow>
   Script_exchange X c s log = Some (Inl e, s\<lparr>errCount := errCount s + 1\<rparr>, log @ [c])"
  by (subst Script_exchange.simps) simp

lemma exchange_load_failed:
  "X log c = Inl e \<Longrightarrow> \<not> errors_Is e ErrOutOfMemory \<Longrightarrow>
   errors_Is e errLoadRequired \<Longrightarrow>
   X (log @ [c]) \<lparr>command = load, payload = InitPayload (Init.truncate s), sink = False\<rparr>
     = Inl le \<Longrightarrow>
   Script_exchange X c s log =
     Some (Inl (rewriteJavaScriptStack s le), s,
           log @ [c, \<lparr>command = load, payload = InitPayload (Init.truncate s),
                       sink = False\<rparr>])"
  by (subst Script_exchange.simps) simp

lemma exchange_load_done:
  "X log c = Inl e \<Longrightarrow> \<not> errors_Is e ErrOutOfMemory \<Longrightarrow>
   errors_Is e errLoadRequired \<Longrightarrow>
   X (log @ [c]) \<lparr>command = load, payload = InitPayload (Init.truncate s), sink = False\<rparr>
     = Inr u \<Longrightarrow>
   Script_exchange X c s log =
     Script_exchange X c s
       (log @ [c, \<lparr>command = load, payload = InitPayload (Init.truncate s), sink = False\<rparr>])"
  by (subst Script_exchange.simps) simp

lemma exchange_other_error:
  "X log c = Inl e \<Longrightarrow> \<not> errors_Is e ErrOutOfMemory \<Longrightarrow>
   \<not> errors_Is e errLoadRequired \<Longrightarrow>
   Script_exchange X c s log =
     Some (Inl (rewriteJavaScriptStack s e), s\<lparr>errCount := 0\<rparr>, log @ [c])"
  by (subst Script_exchange.simps) simp

lemma truncate_Script:
  "Init.truncate (s :: 'v Script) =
     \<lparr>Session = Session s, Executable = Executable s, Variables = Variables s,
      Includes = Includes s\<rparr>"
  by (simp add: Init.truncate_def Init.defs Session.defs)

lemma exchange_three_ooms:
  assumes fresh: "errCount s = 0"
    and e1: "X log c = Inl e1" "errors_Is e1 ErrOutOfMemory"
    and e2: "X (log @ [c]) c = Inl e2" "errors_Is e2 ErrOutOfMemory"
    and e3: "X (log @ [c, c]) c = Inl e3" "errors_Is e3 ErrOutOfMemory"
  shows "Script_exchange X c s log = Some (Inl e3, s\<lparr>errCount := 3\<rparr>, log @ [c, c, c])"
proof -
  have "Script_exchange X c s log = Script_exchange X c (s\<lparr>errCount := 1\<rparr>) (log @ [c])"
    using exchange_oom_retry [where X = X and log = log and c = c and e = e1 and s = s] e1
    by (simp add: fresh ceiling_iff)
  also have "\<dots> = Script_exchange X c (s\<lparr>errCount := 2\<rparr>) (log @ [c, c])"
    using exchange_oom_retry [where X = X and log = "log @ [c]" and c = c and e = e2
        and s = "s\<lparr>errCount := 1\<rparr>"] e2
    by (simp add: ceiling_iff)
  also have "\<dots> = Some (Inl e3, s\<lparr>errCount := 3\<rparr>, log @ [c, c, c])"
    using exchange_oom_ceiling [where X = X and log = "log @ [c, c]" and c = c and e = e3
        and s = "s\<lparr>errCount := 2\<rparr>"] e3
    by (simp add: ceiling_iff)
  finally show ?thesis .
qed

subsection \<open>Retry ceiling\<close>

text \<open>
  C1. A fresh handle (failure counter zero) whose exchanger answers every exchange with an
  out-of-memory error: one \<open>Execute\<close> call returns, its result is the answer to the third
  exchange, which is an out-of-memory error; the calls made are exactly three, all of them
  the same \<open>execute\<close> call, so no \<open>load\<close> is among them; the counter is left at 3.
\<close>

theorem retry_ceiling:
  assumes fresh: "errCount s = 0"
    and oom: "\<And>log c. \<exists>e. X log c = Inl e \<and> errors_Is e ErrOutOfMemory"
  shows "Script_Execute X name args result s log =
           Some (X (log @ [execute_call s name args result, execute_call s name args result])
                   (execute_call s name args result),
                 s\<lparr>errCount := 3\<rparr>,
                 log @ [execute_call s name args result, execute_call s name args result,
                        execute_call s name args result])
         \<and> (\<exists>e. X (log @ [execute_call s name args result, execute_call s name args result])
                   (execute_call s name args result) = Inl e \<and> errors_Is e ErrOutOfMemory)
         \<and> command (execute_call s name args result) = execute"
proof -
  let ?c = "execute_call s name args result"
  obtain e1 where e1: "X log ?c = Inl e1" "errors_Is e1 ErrOutOfMemory"
    using oom by blast
  obtain e2 where e2: "X (log @ [?c]) ?c = Inl e2" "errors_Is e2 ErrOutOfMemory"
    using oom by blast
  obtain e3 where e3: "X (log @ [?c, ?c]) ?c = Inl e3" "errors_Is e3 ErrOutOfMemory"
    using oom by blast
  have "Script_exchange X ?c s log = Some (Inl e3, s\<lparr>errCount := 3\<rparr>, log @ [?c, ?c, ?c])"
    using fresh e1 e2 e3 by (rule exchange_three_ooms)
  then show ?thesis
    using e3 by (simp add: Script_Execute_def) (simp add: execute_call_def)
qed

theorem retry_ceiling_witness:
  "Script_Execute always_oom ''main'' None True fresh_script [] =
     Some (Inl ErrOutOfMemory, fresh_script\<lparr>errCount := 3\<rparr>,
           [execute_call fresh_script ''main'' None True,
            execute_call fresh_script ''main'' None True,
            execute_call fresh_script ''main'' None True])"
  using retry_ceiling [of fresh_script always_oom "''main''" None True "[]"]
  by (simp add: fresh_script_def always_oom_def)

subsection \<open>Lazy load\<close>

text \<open>
  C3. The exchanger answers the first \<open>execute\<close> exchange with load-required, then
  succeeds on the \<open>load\<close> exchange and on the second \<open>execute\<close> exchange: one \<open>Execute\<close>
  call succeeds with the value of the second \<open>execute\<close> exchange, and the calls made are
  exactly the \<open>execute\<close> call, one \<open>load\<close> call whose payload is the handle's session,
  executable, variables and includes and which has no result sink, and the \<open>execute\<close>
  call again: among the calls made there is one with the command \<open>load\<close> and there are
  two with the command \<open>execute\<close>, and no other. This holds from any failure counter, so
  for a fresh handle too.
\<close>

theorem lazy_load:
  assumes first: "X log (execute_call s name args result) = Inl e"
    and lr: "errors_Is e errLoadRequired" "\<not> errors_Is e ErrOutOfMemory"
    and loaded: "X (log @ [execute_call s name args result])
       \<lparr>command = load,
          payload = InitPayload \<lparr>Session = Session s, Executable = Executable s,
                                  Variables = Variables s, Includes = Includes s\<rparr>,
          sink = False\<rparr> = Inr u"
    and second: "X (log @ [execute_call s name args result,
       \<lparr>command = load,
          payload = InitPayload \<lparr>Session = Session s, Executable = Executable s,
                                  Variables = Variables s, Includes = Includes s\<rparr>,
          sink = False\<rparr>]) (execute_call s name args result) = Inr v"
  shows "Script_Execute X name args result s log =
           Some (Inr v, s\<lparr>errCount := 0\<rparr>,
                 log @ [execute_call s name args result,
                        \<lparr>command = load,
                           payload = InitPayload \<lparr>Session = Session s, Executable = Executable s,
                                                   Variables = Variables s, Includes = Includes s\<rparr>,
                           sink = False\<rparr>,
                        execute_call s name args result])
       \<and> command (execute_call s name args result) = execute
       \<and> map command
            [execute_call s name args result,
             \<lparr>command = load,
                payload = InitPayload \<lparr>Session = Session s, Executable = Executable s,
                                        Variables = Variables s, Includes = Includes s\<rparr>,
                sink = False\<rparr>,
             execute_call s name args result] = [execute, load, execute]
       \<and> length (filter (\<lambda>k. command k = load)
            [execute_call s name args result,
             \<lparr>command = load,
                payload = InitPayload \<lparr>Session = Session s, Executable = Executable s,
                                        Variables = Variables s, Includes = Includes s\<rparr>,
                sink = False\<rparr>,
             execute_call s name args result]) = 1
       \<and> length (filter (\<lambda>k. command k = execute)
            [execute_call s name args result,
             \<lparr>command = load,
                payload = InitPayload \<lparr>Session = Session s, Executable = Executable s,
                                        Variables = Variables s, Includes = Includes s\<rparr>,
                sink = False\<rparr>,
             execute_call s name args result]) = 2"
proof -
  let ?c = "execute_call s name args result"
  let ?l = "\<lparr>command = load, payload = InitPayload (Init.truncate s), sink = False\<rparr>"
  have cmd: "command ?c = execute"
    by (simp add: execute_call_def)
  have "Script_exchange X ?c s log = Script_exchange X ?c s (log @ [?c, ?l])"
    using exchange_load_done [where X = X and log = log and c = ?c and e = e and s = s and u = u]
      first lr loaded
    by (simp add: truncate_Script)
  also have "\<dots> = Some (Inr v, s\<lparr>errCount := 0\<rparr>, (log @ [?c, ?l]) @ [?c])"
    using second by (intro exchange_success) (simp add: truncate_Script)
  finally show ?thesis
    by (simp add: Script_Execute_def truncate_Script cmd)
qed

theorem lazy_load_witness:
  "Script_Execute evicted_once ''main'' None True fresh_script [] =
     Some (Inr ''ok'', fresh_script,
           [execute_call fresh_script ''main'' None True,
            \<lparr>command = load,
               payload = InitPayload \<lparr>Session = ''s1'', Executable = ''return 1'',
                                       Variables = Map.empty, Includes = []\<rparr>,
               sink = False\<rparr>,
            execute_call fresh_script ''main'' None True])
   \<and> command (execute_call fresh_script ''main'' None True) = execute"
  using lazy_load [of evicted_once "[]" fresh_script "''main''" None True errLoadRequired
      "''ok''" "''ok''"]
  by (simp add: fresh_script_def evicted_once_def)

subsection \<open>A failed load\<close>

text \<open>
  C4. The exchanger answers the \<open>execute\<close> exchange with load-required and the \<open>load\<close>
  exchange that follows with an error: \<open>Execute\<close> returns that error passed through the
  stack translator; the calls made are the \<open>execute\<close> call and the \<open>load\<close> call and no
  more, so the command is not tried again; the handle, and with it the failure counter, is
  as it was.
\<close>

theorem load_failure:
  assumes first: "X log (execute_call s name args result) = Inl e"
    and lr: "errors_Is e errLoadRequired" "\<not> errors_Is e ErrOutOfMemory"
    and failed: "X (log @ [execute_call s name args result])
       \<lparr>command = load,
          payload = InitPayload \<lparr>Session = Session s, Executable = Executable s,
                                  Variables = Variables s, Includes = Includes s\<rparr>,
          sink = False\<rparr> = Inl le"
  shows "Script_Execute X name args result s log =
           Some (Inl (rewriteJavaScriptStack s le), s,
                 log @ [execute_call s name args result,
                        \<lparr>command = load,
                           payload = InitPayload \<lparr>Session = Session s, Executable = Executable s,
                                                   Variables = Variables s, Includes = Includes s\<rparr>,
                           sink = False\<rparr>])"
  using exchange_load_failed [where X = X and log = log and c = "execute_call s name args result"
      and e = e and s = s and le = le] first lr failed
  by (simp add: Script_Execute_def truncate_Script)

theorem load_failure_witness:
  "Script_Execute load_fails ''main'' None True (fresh_script\<lparr>errCount := 2\<rparr>) [] =
     Some (Inl (Opaque ''no runtime''), fresh_script\<lparr>errCount := 2\<rparr>,
           [execute_call fresh_script ''main'' None True,
            \<lparr>command = load,
               payload = InitPayload \<lparr>Session = ''s1'', Executable = ''return 1'',
                                       Variables = Map.empty, Includes = []\<rparr>,
               sink = False\<rparr>])"
  using load_failure [of load_fails "[]" "fresh_script\<lparr>errCount := 2\<rparr>" "''main''" None True
      errLoadRequired "Opaque ''no runtime''"]
  by (simp add: fresh_script_def load_fails_def execute_call_def rewriteJavaScriptStack_def)

subsection \<open>The stack translator on the scenario of the specification\<close>

text \<open>
  C7. With \<open>rowOffset = 2\<close>, no includes and \<open>colOffset = 10\<close>, and a script error whose
  stack is the header line \<open>at Object.<anonymous> (vm.js:1:1)\<close> followed by the frame
  \<open>at module.exports (vm.js:5:15)\<close>: the header is dropped, the frame matches with
  function \<open>module.exports\<close>, row 5 and column 15, the corrected row is
  \<open>5 - (2 + 1 + 0) = 2\<close>, the column stays 15, and the only line produced is the frame
  \<open>at main (2:15)\<close>, written with the two leading spaces of the format string. The
  returned error carries the message, a newline and that line as its stack.
\<close>

theorem stack_translation_scenario:
  assumes "rowOffset s = 2" and "colOffset s = 10" and "Includes s = []"
    and "errors_As err = Some j" and "stack j = spec_stack"
  shows "vmStackTraceLine ''at module.exports (vm.js:5:15)''
           = Some (''module.exports'', ''5'', ''15'')
       \<and> Atoi ''5'' - (rowOffset s + 1 + of_nat (length (Includes s))) = 2
       \<and> rewrite_lines s [] (tl (split_lines (stack j))) = Some [''  at main (2:15)'']
       \<and> rewriteJavaScriptStack s err =
           JsError (j\<lparr>stack := trim_newlines (message j @ [newline] @ ''  at main (2:15)'')\<rparr>)"
proof -
  have row: "Atoi ''5'' - (rowOffset s + 1 + of_nat (length (Includes s))) = 2"
    using assms by (simp add: Atoi_examples)
  have loop: "rewrite_lines s [] (tl (split_lines (stack j))) = Some [''  at main (2:15)'']"
    using assms
    by (simp add: split_spec_stack match_examples Atoi_examples show_go_int_examples
        word_sless_alt)
  have nonempty: "stack j \<noteq> []"
    using assms by (simp add: spec_stack_def)
  show ?thesis
    using row loop nonempty assms(4)
    by (simp add: match_examples rewriteJavaScriptStack_def)
qed

theorem stack_translation_scenario_witness:
  "rewriteJavaScriptStack fresh_script (JsError \<lparr>message = ''boom'', stack = spec_stack\<rparr>) =
     JsError \<lparr>message = ''boom'', stack = ''boom'' @ [newline] @ ''  at main (2:15)''\<rparr>"
  using stack_translation_scenario [of fresh_script
      "JsError \<lparr>message = ''boom'', stack = spec_stack\<rparr>"
      "\<lparr>message = ''boom'', stack = spec_stack\<rparr>"]
  by (simp add: fresh_script_def trim_newlines_def newline_def)

subsection \<open>Frames above the user's code\<close>

lemma rewrite_lines_negative:
  "line \<in> set lines \<Longrightarrow> vmStackTraceLine line = Some (f, r, c) \<Longrightarrow>
   Atoi r - (rowOffset s + 1 + of_nat (length (Includes s))) <s 0 \<Longrightarrow>
   rewrite_lines s stk lines = None"
proof (induction lines arbitrary: stk)
  case Nil
  then show ?case by simp
next
  case (Cons a lines)
  show ?case
  proof (cases "a = line")
    case True
    with Cons.prems show ?thesis by simp
  next
    case False
    with Cons.prems have "line \<in> set lines" by simp
    then have "\<And>stk. rewrite_lines s stk lines = None"
      using Cons.IH Cons.prems(2,3) by blast
    then show ?thesis
      by (simp add: Let_def split: option.splits)
  qed
qed

text \<open>
  C8. When some line after the first of a script error's stack matches the frame pattern
  and its corrected row, the row minus \<open>rowOffset + 1 +\<close> the number of includes, is
  negative, the translator returns exactly the error it was given, whatever frames came
  before or after that line.
\<close>

theorem negative_row_abandons:
  assumes "errors_As err = Some j"
    and "line \<in> set (tl (split_lines (stack j)))"
    and "vmStackTraceLine line = Some (f, r, c)"
    and "Atoi r - (rowOffset s + 1 + of_nat (length (Includes s))) <s 0"
  shows "rewriteJavaScriptStack s err = err"
  using assms rewrite_lines_negative [of line "tl (split_lines (stack j))" f r c s "[]"]
  by (simp add: rewriteJavaScriptStack_def)

theorem negative_row_abandons_witness:
  "rewriteJavaScriptStack fresh_script
     (JsError \<lparr>message = ''boom'', stack = boilerplate_stack\<rparr>) =
   JsError \<lparr>message = ''boom'', stack = boilerplate_stack\<rparr>"
  using negative_row_abandons [of "JsError \<lparr>message = ''boom'', stack = boilerplate_stack\<rparr>"
      "\<lparr>message = ''boom'', stack = boilerplate_stack\<rparr>"
      "''    at module.exports (vm.js:2:5)''" "''module.exports''" "''2''" "''5''" fresh_script]
  by (simp add: split_boilerplate_stack match_examples Atoi_examples fresh_script_def
      word_sless_alt)

subsection \<open>Errors without a stack\<close>

text \<open>
  C9. A script error whose stack is the empty string is returned as it is: the translator
  gives back the very error it received.
\<close>

theorem empty_stack_passthrough:
  assumes "errors_As err = Some j" and "stack j = []"
  shows "rewriteJavaScriptStack s err = err"
  using assms by (simp add: rewriteJavaScriptStack_def)

theorem empty_stack_passthrough_witness:
  "rewriteJavaScriptStack fresh_script (Wrap ''execute'' (JsError \<lparr>message = ''boom'', stack = []\<rparr>))
     = Wrap ''execute'' (JsError \<lparr>message = ''boom'', stack = []\<rparr>)"
  using empty_stack_passthrough [of "Wrap ''execute'' (JsError \<lparr>message = ''boom'', stack = []\<rparr>)"
      "\<lparr>message = ''boom'', stack = []\<rparr>" fresh_script]
  by simp

subsection \<open>A frame on row zero\<close>

text \<open>
  The loop keeps what it has built, and it gives up on a negative corrected row and on
  nothing else.
\<close>

lemma rewrite_lines_keeps:
  "rewrite_lines s stk lines = Some out \<Longrightarrow> set stk \<subseteq> set out"
proof (induction lines arbitrary: stk)
  case Nil
  then show ?case by simp
next
  case (Cons a lines)
  show ?case
  proof (cases "vmStackTraceLine a")
    case None
    with Cons show ?thesis by simp
  next
    case (Some m)
    obtain f r c where m: "m = (f, r, c)" by (cases m)
    from Cons.prems Some m obtain fr where "rewrite_lines s (stk @ [fr]) lines = Some out"
      by (auto simp: Let_def split: if_splits)
    from Cons.IH [OF this] show ?thesis by simp
  qed
qed

lemma rewrite_lines_abandons_iff:
  "rewrite_lines s stk lines = None \<longleftrightarrow>
     (\<exists>l \<in> set lines.
        case vmStackTraceLine l of
          None \<Rightarrow> False
        | Some (f, r, c) \<Rightarrow> Atoi r - (rowOffset s + 1 + of_nat (length (Includes s))) <s 0)"
proof (induction lines arbitrary: stk)
  case Nil
  show ?case by simp
next
  case (Cons a lines)
  show ?case
  proof (cases "vmStackTraceLine a")
    case None
    then show ?thesis using Cons.IH [of stk] by simp
  next
    case (Some m)
    obtain f r c where m: "m = (f, r, c)" by (cases m)
    show ?thesis
    proof (cases "Atoi r - (rowOffset s + 1 + of_nat (length (Includes s))) <s 0")
      case True
      with Some m show ?thesis by simp
    next
      case False
      with Some m show ?thesis
        using Cons.IH by (simp add: Let_def)
    qed
  qed
qed

lemma rewrite_lines_emits:
  "line \<in> set lines \<Longrightarrow> vmStackTraceLine line = Some (f, r, c) \<Longrightarrow>
   Atoi r - (rowOffset s + 1 + of_nat (length (Includes s))) = 0 \<Longrightarrow>
   rewrite_lines s stk lines = Some out \<Longrightarrow>
   (''  at '' @ (if f = ''module.exports'' then ''main'' else f) @ '' (0:''
      @ show_go_int (Atoi c) @ '')'') \<in> set out"
proof (induction lines arbitrary: stk)
  case Nil
  then show ?case by simp
next
  case (Cons a lines)
  let ?frame = "''  at '' @ (if f = ''module.exports'' then ''main'' else f) @ '' (0:''
      @ show_go_int (Atoi c) @ '')''"
  show ?case
  proof (cases "a = line")
    case True
    with Cons.prems have "rewrite_lines s (stk @ [?frame]) lines = Some out"
      by (simp add: show_go_int_examples word_sless_alt)
    from rewrite_lines_keeps [OF this] show ?thesis by simp
  next
    case False
    with Cons.prems have mem: "line \<in> set lines" by simp
    show ?thesis
    proof (cases "vmStackTraceLine a")
      case None
      with Cons.prems have "rewrite_lines s stk lines = Some out" by simp
      from Cons.IH [OF mem Cons.prems(2,3) this] show ?thesis .
    next
      case (Some m)
      obtain f' r' c' where m: "m = (f', r', c')" by (cases m)
      from Cons.prems(4) Some m obtain fr where "rewrite_lines s (stk @ [fr]) lines = Some out"
        by (auto simp: Let_def split: if_splits)
      from Cons.IH [OF mem Cons.prems(2,3) this] show ?thesis .
    qed
  qed
qed

text \<open>
  C10. A script error with a stack in which a line after the first matches the frame
  pattern with a corrected row of exactly 0. The translator returns the given error when
  some matched line after the first has a negative corrected row; otherwise, so with the
  row-0 frame and no negative one, the loop runs to its end, the frame is among the lines
  it produced, written with row 0 and the raw column (no \<open>colOffset\<close> correction), and
  the returned error is the script error whose stack is the message followed by the
  produced lines.
\<close>

theorem row_zero_is_emitted:
  assumes "errors_As err = Some j" and "stack j \<noteq> []"
    and "line \<in> set (tl (split_lines (stack j)))"
    and "vmStackTraceLine line = Some (f, r, c)"
    and "Atoi r - (rowOffset s + 1 + of_nat (length (Includes s))) = 0"
  shows "if (\<exists>l \<in> set (tl (split_lines (stack j))).
               case vmStackTraceLine l of
                 None \<Rightarrow> False
               | Some (f', r', c') \<Rightarrow>
                   Atoi r' - (rowOffset s + 1 + of_nat (length (Includes s))) <s 0)
         then rewriteJavaScriptStack s err = err
         else (\<exists>stk. rewrite_lines s [] (tl (split_lines (stack j))) = Some stk
                 \<and> (''  at '' @ (if f = ''module.exports'' then ''main'' else f) @ '' (0:''
                       @ show_go_int (Atoi c) @ '')'') \<in> set stk
                 \<and> rewriteJavaScriptStack s err =
                     JsError (j\<lparr>stack :=
                       trim_newlines (message j @ [newline] @ join_lines stk)\<rparr>))"
proof (cases "rewrite_lines s [] (tl (split_lines (stack j)))")
  case None
  then have "\<exists>l \<in> set (tl (split_lines (stack j))).
               case vmStackTraceLine l of
                 None \<Rightarrow> False
               | Some (f', r', c') \<Rightarrow>
                   Atoi r' - (rowOffset s + 1 + of_nat (length (Includes s))) <s 0"
    by (simp add: rewrite_lines_abandons_iff)
  moreover have "rewriteJavaScriptStack s err = err"
    using None assms(1) by (simp add: rewriteJavaScriptStack_def)
  ultimately show ?thesis by simp
next
  case (Some stk)
  then have "\<not> (\<exists>l \<in> set (tl (split_lines (stack j))).
               case vmStackTraceLine l of
                 None \<Rightarrow> False
               | Some (f', r', c') \<Rightarrow>
                   Atoi r' - (rowOffset s + 1 + of_nat (length (Includes s))) <s 0)"
    using rewrite_lines_abandons_iff [of s "[]" "tl (split_lines (stack j))"] by simp
  moreover have "(''  at '' @ (if f = ''module.exports'' then ''main'' else f) @ '' (0:''
                       @ show_go_int (Atoi c) @ '')'') \<in> set stk"
    using assms(3,4,5) Some by (rule rewrite_lines_emits)
  moreover have "rewriteJavaScriptStack s err =
      JsError (j\<lparr>stack := trim_newlines (message j @ [newline] @ join_lines stk)\<rparr>)"
    using Some assms(1,2) by (simp add: rewriteJavaScriptStack_def)
  ultimately show ?thesis
    using Some by simp
qed

theorem row_zero_is_emitted_witness:
  "rewriteJavaScriptStack fresh_script (JsError \<lparr>message = ''boom'', stack = row_zero_stack\<rparr>) =
     JsError \<lparr>message = ''boom'', stack = ''boom'' @ [newline] @ ''  at helper (0:7)''\<rparr>"
proof -
  have loop: "rewrite_lines fresh_script [] [''    at helper (vm.js:3:7)''] =
        Some [''  at helper (0:7)'']"
    by (simp add: match_examples Atoi_examples show_go_int_examples fresh_script_def
        word_sless_alt)
  have nonempty: "row_zero_stack \<noteq> []"
    by (simp add: row_zero_stack_def)
  show ?thesis
    using row_zero_is_emitted [of "JsError \<lparr>message = ''boom'', stack = row_zero_stack\<rparr>"
        "\<lparr>message = ''boom'', stack = row_zero_stack\<rparr>" "''    at helper (vm.js:3:7)''"
        "''helper''" "''3''" "''7''" fresh_script] nonempty loop
    by (simp add: split_row_zero_stack match_examples Atoi_examples fresh_script_def
        word_sless_alt trim_newlines_def newline_def)
qed

subsection \<open>Out of memory at the ceiling\<close>




subsection \<open>The failure counter after a call\<close>

lemma small_counter:
  fixes w :: go_int
  assumes "0 \<le>s w" "w <s maxScriptErrors"
  shows "w = 0 \<or> w = 1 \<or> w = 2"
proof -
  have "0 \<le> sint w" "sint w < 3"
    using assms by (simp_all add: word_sle_eq word_sless_alt maxScriptErrors_def)
  then have "sint w = 0 \<or> sint w = 1 \<or> sint w = 2" by arith
  moreover have "word_of_int (sint w) = w" by simp
  ultimately show ?thesis
    by (metis word_of_int_0 word_of_int_1 word_of_int_numeral)
qed

lemma rewrite_not_oom:
  "\<not> errors_Is err ErrOutOfMemory \<Longrightarrow>
   \<not> errors_Is (rewriteJavaScriptStack s err) ErrOutOfMemory"
  by (simp add: rewriteJavaScriptStack_def split: option.splits)

text \<open>
  Every returned call of the recovery loop for a command other than \<open>load\<close> meets the
  counter contract: by induction over the calls the function makes to itself.
\<close>

lemma exchange_counter:
  assumes ret: "Script_exchange X c s log = Some out"
  shows "command c \<noteq> load \<longrightarrow> counter_contract s out"
proof (rule Script_exchange.raw_induct [OF _ ret])
  fix exch :: "'a exchanger \<Rightarrow> 'a call \<Rightarrow> 'a Script \<Rightarrow> 'a call list
     \<Rightarrow> ((error + 'a) \<times> 'a Script \<times> 'a call list) option"
  fix X c s log out
  assume IH: "\<And>X c s log out. exch X c s log = Some out
                \<Longrightarrow> command c \<noteq> load \<longrightarrow> counter_contract s out"
  assume body: "(case X log c of
        Inl err \<Rightarrow>
          if errors_Is err ErrOutOfMemory then
            (if maxScriptErrors \<le>s errCount s + 1
             then Some (Inl err, s\<lparr>errCount := errCount s + 1\<rparr>, log @ [c])
             else exch X c (s\<lparr>errCount := errCount s + 1\<rparr>) (log @ [c]))
          else if errors_Is err errLoadRequired then
            (case X (log @ [c])
                    \<lparr>command = load, payload = InitPayload (Init.truncate s), sink = False\<rparr> of
               Inl lerr \<Rightarrow>
                 Some (Inl (rewriteJavaScriptStack s lerr), s,
                       log @ [c, \<lparr>command = load, payload = InitPayload (Init.truncate s),
                                   sink = False\<rparr>])
             | Inr v \<Rightarrow>
                 exch X c s
                   (log @ [c, \<lparr>command = load, payload = InitPayload (Init.truncate s),
                               sink = False\<rparr>]))
          else Some (Inl (rewriteJavaScriptStack s err), s\<lparr>errCount := 0\<rparr>, log @ [c])
      | Inr v \<Rightarrow> Some (Inr v, s\<lparr>errCount := 0\<rparr>, log @ [c])) = Some out"
  show "command c \<noteq> load \<longrightarrow> counter_contract s out"
  proof
    assume cmd: "command c \<noteq> load"
    show "counter_contract s out"
    proof (cases "X log c")
      case (Inr v)
      with body show ?thesis
        by (auto simp: counter_contract_def word_sle_eq maxScriptErrors_def)
    next
      case (Inl err)
      show ?thesis
      proof (cases "errors_Is err ErrOutOfMemory")
        case True
        show ?thesis
        proof (cases "maxScriptErrors \<le>s errCount s + 1")
          case ceiling: True
          with body Inl True
          have out: "out = (Inl err, s\<lparr>errCount := errCount s + 1\<rparr>, log @ [c])"
            by simp
          have "0 \<le>s errCount s \<and> errCount s <s maxScriptErrors \<Longrightarrow>
                0 \<le>s errCount s + 1 \<and> errCount s + 1 \<le>s maxScriptErrors"
            using small_counter [of "errCount s"]
            by (auto simp: word_sle_eq maxScriptErrors_def)
          then show ?thesis
            using out True ceiling cmd
            by (auto simp: counter_contract_def)
        next
          case below: False
          with body Inl True
          have rec: "exch X c (s\<lparr>errCount := errCount s + 1\<rparr>) (log @ [c]) = Some out"
            by simp
          have hyp: "counter_contract (s\<lparr>errCount := errCount s + 1\<rparr>) out"
            using IH [OF rec] cmd by simp
          have step: "0 \<le>s errCount s \<and> errCount s <s maxScriptErrors \<Longrightarrow>
                0 \<le>s errCount s + 1 \<and> errCount s + 1 <s maxScriptErrors"
            using small_counter [of "errCount s"] below
            by (auto simp: word_sle_eq word_sless_alt maxScriptErrors_def)
          show ?thesis
            using hyp step
            by (auto simp: counter_contract_def split: sum.splits)
        qed
      next
        case False
        show ?thesis
        proof (cases "errors_Is err errLoadRequired")
          case lr: True
          let ?l = "\<lparr>command = load, payload = InitPayload (Init.truncate s), sink = False\<rparr>"
          show ?thesis
          proof (cases "X (log @ [c]) ?l")
            case failed: (Inl lerr)
            with body Inl False lr
            have out: "out = (Inl (rewriteJavaScriptStack s lerr), s, log @ [c, ?l])"
              by simp
            show ?thesis
              unfolding out counter_contract_def
              by (auto simp: word_sle_eq word_sless_alt)
          next
            case loaded: (Inr u)
            with body Inl False lr
            have rec: "exch X c s (log @ [c, ?l]) = Some out"
              by simp
            show ?thesis
              using IH [OF rec] cmd by simp
          qed
        next
          case other: False
          with body Inl False
          have out: "out = (Inl (rewriteJavaScriptStack s err), s\<lparr>errCount := 0\<rparr>, log @ [c])"
            by simp
          show ?thesis
            unfolding out counter_contract_def
            using rewrite_not_oom [OF False, of s]
            by (auto simp: word_sle_eq maxScriptErrors_def)
        qed
      qed
    qed
  qed
qed

text \<open>
  C5, as the code has it. For every \<open>Describe\<close> or \<open>Execute\<close> call that returns: after a
  success the failure counter is zero; after an error of the requested command (the last
  exchange made was not a \<open>load\<close>) that is not out of memory the counter is zero; after an
  out-of-memory error of the requested command the counter is at the maximum or above;
  and a call that starts with the counter within 0..2 leaves it within 0..3. Nothing is
  said of the counter after a failed load, which the code leaves as the retries before the
  load left it, nor of a bound for calls that start at the maximum or above.
\<close>

theorem failure_counter_after_call:
  assumes "Script_Describe X s log = Some (r, s', log')
         \<or> Script_Execute X name args result s log = Some (r, s', log')"
  shows "(\<forall>v. r = Inr v \<longrightarrow> errCount s' = 0)
       \<and> (\<forall>e. r = Inl e \<and> command (last log') \<noteq> load \<and> \<not> errors_Is e ErrOutOfMemory
              \<longrightarrow> errCount s' = 0)
       \<and> (\<forall>e. r = Inl e \<and> command (last log') \<noteq> load \<and> errors_Is e ErrOutOfMemory
              \<longrightarrow> maxScriptErrors \<le>s errCount s')
       \<and> (0 \<le>s errCount s \<and> errCount s <s maxScriptErrors
              \<longrightarrow> 0 \<le>s errCount s' \<and> errCount s' \<le>s maxScriptErrors)"
proof -
  have "counter_contract s (r, s', log')"
    using assms
  proof
    assume "Script_Describe X s log = Some (r, s', log')"
    then show ?thesis
      using exchange_counter [of X
          "\<lparr>command = describe, payload = SessionPayload (Session.truncate s), sink = True\<rparr>"
          s log "(r, s', log')"]
      by (simp add: Script_Describe_def)
  next
    assume "Script_Execute X name args result s log = Some (r, s', log')"
    then show ?thesis
      using exchange_counter [of X "execute_call s name args result" s log "(r, s', log')"]
      by (simp add: Script_Execute_def execute_call_def)
  qed
  then show ?thesis
    by (auto simp: counter_contract_def)
qed

theorem failure_counter_after_call_witness:
  "Script_Execute always_oom ''main'' None True fresh_script [] =
     Some (Inl ErrOutOfMemory, fresh_script\<lparr>errCount := 3\<rparr>,
           [execute_call fresh_script ''main'' None True,
            execute_call fresh_script ''main'' None True,
            execute_call fresh_script ''main'' None True])
   \<and> maxScriptErrors \<le>s errCount (fresh_script\<lparr>errCount := 3\<rparr>)
   \<and> errCount (fresh_script\<lparr>errCount := 3\<rparr>) \<le>s maxScriptErrors"
proof -
  let ?c = "execute_call fresh_script ''main'' None True"
  have run: "Script_Execute always_oom ''main'' None True fresh_script [] =
      Some (Inl ErrOutOfMemory, fresh_script\<lparr>errCount := 3\<rparr>, [] @ [?c, ?c, ?c])"
    unfolding Script_Execute_def
    by (rule exchange_three_ooms [where ?e1.0 = ErrOutOfMemory and ?e2.0 = ErrOutOfMemory])
      (simp_all add: always_oom_def fresh_script_def)
  have "0 \<le>s errCount fresh_script \<and> errCount fresh_script <s maxScriptErrors"
    by (simp add: fresh_script_def maxScriptErrors_def word_sle_eq word_sless_alt)
  then show ?thesis
    using failure_counter_after_call [of always_oom fresh_script "[]"
        "Inl ErrOutOfMemory" "fresh_script\<lparr>errCount := 3\<rparr>" "[?c, ?c, ?c]"
        "''main''" None True] run
    by (simp add: execute_call_def)
qed

text \<open>
  The claim as it was stated fails twice. A call that starts at the maximum and meets out
  of memory leaves the counter at 4, above the maximum. And a call that meets out of
  memory once, then load-required, then a failed load returns an error that is not out of
  memory with the counter at 1.
\<close>

theorem failure_counter_counterexample:
  "Script_Execute always_oom ''main'' None True (fresh_script\<lparr>errCount := 3\<rparr>)
     [execute_call fresh_script ''main'' None True,
      execute_call fresh_script ''main'' None True,
      execute_call fresh_script ''main'' None True] =
     Some (Inl ErrOutOfMemory, fresh_script\<lparr>errCount := 4\<rparr>,
           [execute_call fresh_script ''main'' None True,
            execute_call fresh_script ''main'' None True,
            execute_call fresh_script ''main'' None True,
            execute_call fresh_script ''main'' None True])
   \<and> maxScriptErrors <s errCount (fresh_script\<lparr>errCount := 4\<rparr>)
   \<and> Script_Execute oom_then_load_fails ''main'' None True fresh_script [] =
     Some (Inl (Opaque ''no runtime''), fresh_script\<lparr>errCount := 1\<rparr>,
           [execute_call fresh_script ''main'' None True,
            execute_call fresh_script ''main'' None True,
            \<lparr>command = load, payload = InitPayload (Init.truncate fresh_script),
               sink = False\<rparr>])
   \<and> \<not> errors_Is (Opaque ''no runtime'') ErrOutOfMemory
   \<and> errCount (fresh_script\<lparr>errCount := 1\<rparr>) \<noteq> 0"
proof -
  let ?c = "execute_call fresh_script ''main'' None True"
  let ?l = "\<lparr>command = load, payload = InitPayload (Init.truncate fresh_script),
              sink = False\<rparr> :: string call"
  have same: "execute_call (fresh_script\<lparr>errCount := 3\<rparr>) ''main'' None True = ?c"
    by (simp add: execute_call_def)
  have above: "Script_exchange always_oom ?c (fresh_script\<lparr>errCount := 3\<rparr>) [?c, ?c, ?c] =
      Some (Inl ErrOutOfMemory, fresh_script\<lparr>errCount := 4\<rparr>, [?c, ?c, ?c, ?c])"
    using exchange_oom_ceiling [where X = always_oom and log = "[?c, ?c, ?c]" and c = ?c
        and e = ErrOutOfMemory and s = "fresh_script\<lparr>errCount := 3\<rparr>"]
    by (simp add: always_oom_def ceiling_iff fresh_script_def)
  have "Script_exchange oom_then_load_fails ?c fresh_script [] =
        Script_exchange oom_then_load_fails ?c (fresh_script\<lparr>errCount := 1\<rparr>) [?c]"
    using exchange_oom_retry [where X = oom_then_load_fails and log = "[]" and c = ?c
        and e = ErrOutOfMemory and s = fresh_script]
    by (simp add: oom_then_load_fails_def ceiling_iff fresh_script_def)
  also have "\<dots> = Some (Inl (Opaque ''no runtime''), fresh_script\<lparr>errCount := 1\<rparr>, [?c, ?c, ?l])"
    using exchange_load_failed [where X = oom_then_load_fails and log = "[?c]" and c = ?c
        and e = errLoadRequired and s = "fresh_script\<lparr>errCount := 1\<rparr>"
        and le = "Opaque ''no runtime''"]
    by (simp add: oom_then_load_fails_def execute_call_def rewriteJavaScriptStack_def
        truncate_Script)
  finally have unreset: "Script_exchange oom_then_load_fails ?c fresh_script [] =
      Some (Inl (Opaque ''no runtime''), fresh_script\<lparr>errCount := 1\<rparr>, [?c, ?c, ?l])" .
  have "maxScriptErrors <s errCount (fresh_script\<lparr>errCount := 4\<rparr>)"
    by (simp add: maxScriptErrors_def word_sless_alt)
  with above unreset show ?thesis
    by (simp add: Script_Execute_def same)
qed

subsection \<open>Reset on success\<close>

lemma exchange_oom_run:
  assumes "k + n < 3"
    and "errCount s = of_nat k"
    and "\<And>i. i < n \<Longrightarrow> \<exists>e. X (log @ replicate i c) c = Inl e \<and> errors_Is e ErrOutOfMemory"
  shows "Script_exchange X c s log =
           Script_exchange X c (s\<lparr>errCount := of_nat (k + n)\<rparr>) (log @ replicate n c)"
  using assms
proof (induction n arbitrary: k s log)
  case 0
  have "s\<lparr>errCount := of_nat k\<rparr> = s"
    by (simp add: "0.prems"(2) [symmetric])
  then show ?case by simp
next
  case (Suc n)
  obtain e where e: "X log c = Inl e" "errors_Is e ErrOutOfMemory"
    using Suc.prems(3) [of 0] by auto
  have k: "k = 0 \<or> k = 1" using Suc.prems(1) by arith
  then have below: "\<not> maxScriptErrors \<le>s errCount s + 1"
    using Suc.prems(2) by (auto simp: ceiling_iff)
  have step: "Script_exchange X c s log =
              Script_exchange X c (s\<lparr>errCount := of_nat (Suc k)\<rparr>) (log @ [c])"
    using exchange_oom_retry [where X = X and log = log and c = c and e = e and s = s] e below
    by (simp add: Suc.prems(2) add.commute)
  have rest: "\<And>i. i < n \<Longrightarrow>
      \<exists>e. X ((log @ [c]) @ replicate i c) c = Inl e \<and> errors_Is e ErrOutOfMemory"
    using Suc.prems(3) [of "Suc _"] by simp
  have "Script_exchange X c (s\<lparr>errCount := of_nat (Suc k)\<rparr>) (log @ [c]) =
        Script_exchange X c (s\<lparr>errCount := of_nat (Suc k), errCount := of_nat (Suc k + n)\<rparr>)
          ((log @ [c]) @ replicate n c)"
    using Suc.prems(1) rest
    by (intro Suc.IH) simp_all
  with step show ?case
    by (simp add: replicate_app_Cons_same)
qed

text \<open>
  C6. A handle whose counter \<open>k\<close> and a number \<open>n\<close> of out-of-memory answers stay below
  the maximum together (\<open>k + n < 3\<close>; a fresh handle and \<open>n < 3\<close> in particular): when
  the exchanger answers \<open>n\<close> exchanges of an \<open>Execute\<close> call with out of memory and the
  next one with success, the call succeeds after \<open>n + 1\<close> exchanges and leaves the
  counter at zero; and when the exchanger answers the exchanges of the following
  \<open>Execute\<close> call with out of memory, that call makes exactly three exchanges before it
  returns the third out-of-memory answer, with the counter at 3.
\<close>

theorem reset_on_success:
  assumes "k + n < 3" and "errCount s = of_nat k"
    and ooms: "\<And>i. i < n \<Longrightarrow>
       \<exists>e. X (log @ replicate i (execute_call s name args result))
              (execute_call s name args result) = Inl e \<and> errors_Is e ErrOutOfMemory"
    and ok: "X (log @ replicate n (execute_call s name args result))
               (execute_call s name args result) = Inr v"
    and again: "\<And>i. i < 3 \<Longrightarrow>
       \<exists>e. X (log @ replicate (Suc n) (execute_call s name args result)
                  @ replicate i (execute_call s name' args' result'))
              (execute_call s name' args' result') = Inl e \<and> errors_Is e ErrOutOfMemory"
  shows "Script_Execute X name args result s log =
           Some (Inr v, s\<lparr>errCount := 0\<rparr>,
                 log @ replicate (Suc n) (execute_call s name args result))
       \<and> Script_Execute X name' args' result' (s\<lparr>errCount := 0\<rparr>)
           (log @ replicate (Suc n) (execute_call s name args result)) =
           Some (X (log @ replicate (Suc n) (execute_call s name args result)
                      @ replicate 2 (execute_call s name' args' result'))
                   (execute_call s name' args' result'),
                 s\<lparr>errCount := 3\<rparr>,
                 log @ replicate (Suc n) (execute_call s name args result)
                   @ replicate 3 (execute_call s name' args' result'))"
proof -
  let ?c = "execute_call s name args result"
  let ?d = "execute_call s name' args' result'"
  let ?log = "log @ replicate (Suc n) ?c"
  have "Script_exchange X ?c s log =
        Script_exchange X ?c (s\<lparr>errCount := of_nat (k + n)\<rparr>) (log @ replicate n ?c)"
    using assms(1,2) ooms by (rule exchange_oom_run)
  also have "\<dots> = Some (Inr v, s\<lparr>errCount := 0\<rparr>, (log @ replicate n ?c) @ [?c])"
    using exchange_success [where X = X and log = "log @ replicate n ?c" and c = ?c and v = v
        and s = "s\<lparr>errCount := of_nat (k + n)\<rparr>"] ok
    by simp
  finally have first:
    "Script_Execute X name args result s log = Some (Inr v, s\<lparr>errCount := 0\<rparr>, ?log)"
    by (simp add: Script_Execute_def replicate_append_same)
  obtain e1 where e1: "X ?log ?d = Inl e1" "errors_Is e1 ErrOutOfMemory"
    using again [of 0] by auto
  obtain e2 where e2: "X (?log @ [?d]) ?d = Inl e2" "errors_Is e2 ErrOutOfMemory"
    using again [of 1] by auto
  obtain e3 where e3: "X (?log @ [?d, ?d]) ?d = Inl e3" "errors_Is e3 ErrOutOfMemory"
    using again [of 2] by (auto simp: numeral_2_eq_2)
  have same: "execute_call (s\<lparr>errCount := 0\<rparr>) name' args' result' = ?d"
    by (simp add: execute_call_def)
  have "Script_exchange X ?d (s\<lparr>errCount := 0\<rparr>) ?log =
        Some (Inl e3, s\<lparr>errCount := 0, errCount := 3\<rparr>, ?log @ [?d, ?d, ?d])"
    using exchange_three_ooms [where X = X and log = ?log and c = ?d
        and s = "s\<lparr>errCount := 0\<rparr>" and ?e1.0 = e1 and ?e2.0 = e2 and ?e3.0 = e3] e1 e2 e3
    by simp
  then have second: "Script_Execute X name' args' result' (s\<lparr>errCount := 0\<rparr>) ?log =
        Some (X (?log @ replicate 2 ?d) ?d, s\<lparr>errCount := 3\<rparr>, ?log @ replicate 3 ?d)"
    using e3 by (simp add: Script_Execute_def same numeral_2_eq_2 numeral_3_eq_3)
  from first second show ?thesis by simp
qed

theorem reset_on_success_witness:
  "Script_Execute (flaky 2) ''main'' None True fresh_script [] =
     Some (Inr ''ok'', fresh_script,
           replicate 3 (execute_call fresh_script ''main'' None True))
   \<and> Script_Execute (flaky 2) ''other'' None True fresh_script
       (replicate 3 (execute_call fresh_script ''main'' None True)) =
     Some (Inl ErrOutOfMemory, fresh_script\<lparr>errCount := 3\<rparr>,
           replicate 3 (execute_call fresh_script ''main'' None True)
             @ replicate 3 (execute_call fresh_script ''other'' None True))"
proof -
  have zero: "fresh_script\<lparr>errCount := 0\<rparr> = fresh_script"
    by (simp add: fresh_script_def)
  show ?thesis
    using reset_on_success [of 0 2 fresh_script "flaky 2" "[]" "''main''" None True "''ok''"
        "''other''" None True]
    by (simp add: zero flaky_def) (simp add: fresh_script_def numeral_3_eq_3)
qed

end
